theory Spec2Isabelle
  imports Complex_Main "HOL-Library.Word" "HOL-Library.Extended_Nat"
    "HOL-Library.Code_Target_Nat"
begin

section \<open>JavaScript numbers\<close>

text \<open>
  The program computes with JavaScript numbers. They are modelled as exact rationals
  extended with the three special values that the program can produce by dividing by a
  zero header field. Rounding of IEEE doubles and the sign of zero are not modelled:
  the model is exact for integers below \<open>2^53\<close>.
\<close>

datatype number = NaN | NegInfinity | Num rat | Infinity

datatype error =
    InvalidIvfFile              \<comment> \<open>\<open>throw new Error('Invalid IVF file')\<close>\<close>
  | NoParticipantName           \<comment> \<open>\<open>no participant name found\<close>\<close>
  | NoFramesFound               \<comment> \<open>\<open>no frames found\<close>\<close>
  | TooManyFramesMissing number \<comment> \<open>\<open>too many frames missing: ${missing}\<close>\<close>
  | RangeError                  \<comment> \<open>\<open>BigInt(Infinity)\<close>, a setter out of range\<close>
  | TypeError                   \<comment> \<open>property access on \<open>undefined\<close>\<close>

fun js_neg :: "number \<Rightarrow> number" where
  "js_neg NaN = NaN"
| "js_neg NegInfinity = Infinity"
| "js_neg (Num a) = Num (- a)"
| "js_neg Infinity = NegInfinity"

fun js_add :: "number \<Rightarrow> number \<Rightarrow> number" where
  "js_add (Num a) (Num b) = Num (a + b)"
| "js_add NaN _ = NaN"
| "js_add _ NaN = NaN"
| "js_add Infinity NegInfinity = NaN"
| "js_add NegInfinity Infinity = NaN"
| "js_add Infinity _ = Infinity"
| "js_add _ Infinity = Infinity"
| "js_add NegInfinity _ = NegInfinity"
| "js_add _ NegInfinity = NegInfinity"

definition js_sub :: "number \<Rightarrow> number \<Rightarrow> number" where
  "js_sub a b = js_add a (js_neg b)"

text \<open>The infinity of the sign of a non-zero rational.\<close>

definition signed_inf :: "rat \<Rightarrow> number" where
  "signed_inf a = (if a = 0 then NaN else if 0 < a then Infinity else NegInfinity)"

fun js_mul :: "number \<Rightarrow> number \<Rightarrow> number" where
  "js_mul (Num a) (Num b) = Num (a * b)"
| "js_mul NaN _ = NaN"
| "js_mul _ NaN = NaN"
| "js_mul (Num a) Infinity = signed_inf a"
| "js_mul (Num a) NegInfinity = signed_inf (- a)"
| "js_mul Infinity (Num b) = signed_inf b"
| "js_mul NegInfinity (Num b) = signed_inf (- b)"
| "js_mul Infinity Infinity = Infinity"
| "js_mul NegInfinity NegInfinity = Infinity"
| "js_mul Infinity NegInfinity = NegInfinity"
| "js_mul NegInfinity Infinity = NegInfinity"

fun js_div :: "number \<Rightarrow> number \<Rightarrow> number" where
  "js_div (Num a) (Num b) = (if b = 0 then signed_inf a else Num (a / b))"
| "js_div NaN _ = NaN"
| "js_div _ NaN = NaN"
| "js_div (Num a) Infinity = Num 0"
| "js_div (Num a) NegInfinity = Num 0"
| "js_div Infinity (Num b) = (if 0 \<le> b then Infinity else NegInfinity)"
| "js_div NegInfinity (Num b) = (if 0 \<le> b then NegInfinity else Infinity)"
| "js_div _ _ = NaN"




text \<open>\<open>Math.round\<close>: the nearest integer, ties towards plus infinity.\<close>

fun Math_round :: "number \<Rightarrow> number" where
  "Math_round (Num a) = Num (of_int \<lfloor>a + 1 / 2\<rfloor>)"
| "Math_round v = v"

section \<open>The metrics aggregator (\<open>writeGraph\<close>)\<close>












section \<open>Bytes, views and files\<close>

type_synonym byte = "8 word"

text \<open>
  A file is its sequence of bytes. \<open>fd.read(view, 0, length, position)\<close> copies the
  bytes that the file holds from \<open>position\<close> into a fresh, zero-filled view and reports
  how many it copied.
\<close>

definition bytesRead :: "byte list \<Rightarrow> nat \<Rightarrow> nat \<Rightarrow> nat" where
  "bytesRead file len position = min len (length file - position)"

definition fd_read :: "byte list \<Rightarrow> nat \<Rightarrow> nat \<Rightarrow> byte list" where
  "fd_read file len position =
     take len (drop position file) @ replicate (len - bytesRead file len position) 0"

text \<open>
  \<open>fd.write(buffer, 0, length, position)\<close> on a file opened with \<open>'w'\<close>: a write past the
  end leaves a hole of zero bytes.
\<close>

definition fd_write :: "byte list \<Rightarrow> byte list \<Rightarrow> nat \<Rightarrow> byte list" where
  "fd_write file buffer position =
     take position (file @ replicate (position - length file) 0) @ buffer
       @ drop (position + length buffer) file"

text \<open>Little-endian fields of a \<open>DataView\<close>. A setter keeps the low bytes of its value.\<close>

fun le_val :: "byte list \<Rightarrow> nat" where
  "le_val [] = 0"
| "le_val (b # bs) = unat b + 256 * le_val bs"

fun le_bytes :: "nat \<Rightarrow> int \<Rightarrow> byte list" where
  "le_bytes 0 v = []"
| "le_bytes (Suc n) v = of_int (v mod 256) # le_bytes n (v div 256)"

definition getUint16 :: "byte list \<Rightarrow> nat \<Rightarrow> nat" where
  "getUint16 view off = le_val (take 2 (drop off view))"

definition getUint32 :: "byte list \<Rightarrow> nat \<Rightarrow> nat" where
  "getUint32 view off = le_val (take 4 (drop off view))"

definition getBigUint64 :: "byte list \<Rightarrow> nat \<Rightarrow> nat" where
  "getBigUint64 view off = le_val (take 8 (drop off view))"

text \<open>
  The setters, where the field fits in the view. A setter of \<open>DataView\<close> throws a
  \<open>RangeError\<close> otherwise: the writer tests the length of a frame before it patches
  the timestamp, and the header that it patches has 32 bytes.
\<close>

definition set_bytes :: "byte list \<Rightarrow> nat \<Rightarrow> byte list \<Rightarrow> byte list" where
  "set_bytes view off bs = take off view @ bs @ drop (off + length bs) view"

definition setUint32 :: "byte list \<Rightarrow> nat \<Rightarrow> int \<Rightarrow> byte list" where
  "setUint32 view off v = set_bytes view off (le_bytes 4 v)"

definition setBigUint64 :: "byte list \<Rightarrow> nat \<Rightarrow> int \<Rightarrow> byte list" where
  "setBigUint64 view off v = set_bytes view off (le_bytes 8 v)"

section \<open>JavaScript \<open>Map\<close>\<close>

text \<open>
  A \<open>Map\<close> iterates in insertion order, and \<open>set\<close> on a key that is present replaces the
  value where it stands: an association list with distinct keys.
\<close>

definition Map_has :: "('k \<times> 'v) list \<Rightarrow> 'k \<Rightarrow> bool" where
  "Map_has m k \<longleftrightarrow> k \<in> fst ` set m"

definition Map_get :: "('k \<times> 'v) list \<Rightarrow> 'k \<Rightarrow> 'v option" where
  "Map_get m k = map_of m k"

fun Map_set :: "('k \<times> 'v) list \<Rightarrow> 'k \<Rightarrow> 'v \<Rightarrow> ('k \<times> 'v) list" where
  "Map_set [] k v = [(k, v)]"
| "Map_set ((k', v') # m) k v =
     (if k' = k then (k, v) # m else (k', v') # Map_set m k v)"

definition Map_delete :: "('k \<times> 'v) list \<Rightarrow> 'k \<Rightarrow> ('k \<times> 'v) list" where
  "Map_delete m k = filter (\<lambda>e. fst e \<noteq> k) m"

definition Map_keys :: "('k \<times> 'v) list \<Rightarrow> 'k list" where
  "Map_keys m = map fst m"

section \<open>The container reader (\<open>parseIvf\<close>)\<close>

record IvfFrame =
  frame_index :: nat
  frame_position :: nat
  frame_size :: nat

text \<open>
  The \<open>do ... while\<close> loop over the frame headers. A timestamp read with
  \<open>Number(getBigUint64)\<close> is a natural number.
\<close>

function parse_frames ::
  "byte list \<Rightarrow> nat \<Rightarrow> nat \<Rightarrow> (nat \<times> IvfFrame) list \<Rightarrow> (nat \<times> IvfFrame) list" where
  "parse_frames file index position frames =
     (if bytesRead file 12 position \<noteq> 12 then frames
      else let frameHeaderView = fd_read file 12 position;
               size = getUint32 frameHeaderView 0;
               pts = getBigUint64 frameHeaderView 4
           in if Map_has frames pts
              then parse_frames file index (position + (size + 12)) frames
              else parse_frames file (index + 1) (position + (size + 12))
                     (Map_set frames pts
                        \<lparr>frame_index = index, frame_position = position,
                         frame_size = size + 12\<rparr>))"
  by pat_completeness auto
termination
  by (relation "measure (\<lambda>(file, index, position, frames). length file - position)")
     (auto simp: bytesRead_def)

declare parse_frames.simps [simp del]

section \<open>The timestamp recovery engine\<close>

text \<open>
  The recognition capability is a parameter. For the clock it gives
  \<open>parseInt(data.text.trim() || '0')\<close> (a natural number, as only digits are
  whitelisted) and the confidence; for the name it gives the trimmed text and the
  confidence. \<open>None\<close> is a task that rejects: \<open>Promise.allSettled\<close> drops it.
\<close>

record clock_data =
  recognizedTime :: nat
  clock_confidence :: rat

record name_data =
  name_text :: string
  name_confidence :: rat

record recognizer =
  recognize_clock :: "byte list \<Rightarrow> clock_data option"
  recognize_name :: "byte list \<Rightarrow> name_data option"

text \<open>
  Timestamps after recognition are natural numbers or \<open>Infinity\<close> (a frame rate with a
  zero divisor). \<open>Math.round\<close> of a non-negative product is a non-negative integer,
  \<open>Infinity\<close> or \<open>NaN\<close>; \<open>NaN\<close> is falsy in each test that the program applies to a
  recognized timestamp and is used nowhere else, so it is kept as \<open>0\<close>, the marker of an
  unrecognized frame.
\<close>

fun as_pts :: "number \<Rightarrow> enat" where
  "as_pts (Num a) = enat (nat \<lfloor>a\<rfloor>)"
| "as_pts Infinity = \<infinity>"
| "as_pts _ = 0"

fun number_of :: "enat \<Rightarrow> number" where
  "number_of (enat n) = Num (of_nat n)"
| "number_of \<infinity> = Infinity"

definition recognizedPts_of :: "number \<Rightarrow> nat \<Rightarrow> enat" where
  "recognizedPts_of frameRate t =
     as_pts (Math_round (js_div (js_mul frameRate (Num (of_nat t))) (Num 1000)))"

text \<open>
  \<open>recognizeFrame\<close>, on the pair of \<open>ptsToRecognized\<close> and \<open>participantDisplayName\<close>.
  The tasks are taken in the order of the keys, one after the other.
\<close>

definition recognizeFrame ::
  "recognizer \<Rightarrow> byte list \<Rightarrow> number \<Rightarrow> (nat \<times> IvfFrame) list \<Rightarrow> nat \<Rightarrow>
   (nat \<times> enat) list \<times> string \<Rightarrow> (nat \<times> enat) list \<times> string" where
  "recognizeFrame rec file frameRate frames pts acc =
     (case acc of (ptsToRecognized, participantDisplayName) \<Rightarrow>
      (case Map_get frames pts of
         None \<Rightarrow> acc
       | Some frame \<Rightarrow>
          (let buffer = fd_read file (frame_size frame) (frame_position frame + 12) in
           case recognize_clock rec buffer of
             None \<Rightarrow> acc
           | Some data \<Rightarrow>
              if clock_confidence data < 75 \<or> recognizedTime data = 0
              then (Map_set ptsToRecognized pts 0, participantDisplayName)
              else
                (let recognizedPts = recognizedPts_of frameRate (recognizedTime data);
                     ptsToRecognized' = Map_set ptsToRecognized pts recognizedPts
                 in if participantDisplayName = []
                    then (case recognize_name rec buffer of
                            None \<Rightarrow> (ptsToRecognized', ''-'')
                          | Some d \<Rightarrow>
                             if name_confidence d > 75 \<and> name_text d \<noteq> []
                             then (ptsToRecognized', name_text d)
                             else (ptsToRecognized', []))
                    else (ptsToRecognized', participantDisplayName)))))"

definition run_recognizer ::
  "recognizer \<Rightarrow> byte list \<Rightarrow> number \<Rightarrow> (nat \<times> IvfFrame) list \<Rightarrow>
   (nat \<times> enat) list \<times> string" where
  "run_recognizer rec file frameRate frames =
     fold (recognizeFrame rec file frameRate frames) (Map_keys frames) ([], [])"

text \<open>
  The reconciliation pass. \<open>prev\<close> is \<open>ptsIndex[i - 1]\<close>, absent at \<open>i = 0\<close>. A value
  is falsy when it is \<open>undefined\<close> or \<open>0\<close>.
\<close>

definition truthy :: "enat option \<Rightarrow> bool" where
  "truthy v \<longleftrightarrow> (case v of None \<Rightarrow> False | Some r \<Rightarrow> r \<noteq> 0)"

definition reconcile_step ::
  "(nat \<times> enat) list \<Rightarrow> nat option \<Rightarrow> nat \<Rightarrow> (nat \<times> enat) list" where
  "reconcile_step ptsToRecognized prev pts =
     (case prev of
        None \<Rightarrow> ptsToRecognized
      | Some prevPts \<Rightarrow>
         if truthy (Map_get ptsToRecognized pts) then ptsToRecognized
         else (case Map_get ptsToRecognized prevPts of
                 None \<Rightarrow> Map_delete ptsToRecognized pts
               | Some prevRecognizedPts \<Rightarrow>
                  if prevRecognizedPts \<noteq> 0
                  then Map_set ptsToRecognized pts
                         (prevRecognizedPts + enat pts - enat prevPts)
                  else Map_delete ptsToRecognized pts))"

fun reconcile_loop ::
  "(nat \<times> enat) list \<Rightarrow> nat option \<Rightarrow> nat list \<Rightarrow> (nat \<times> enat) list" where
  "reconcile_loop ptsToRecognized prev [] = ptsToRecognized"
| "reconcile_loop ptsToRecognized prev (pts # rest) =
     reconcile_loop (reconcile_step ptsToRecognized prev pts) (Some pts) rest"

definition reconcile :: "(nat \<times> enat) list \<Rightarrow> (nat \<times> enat) list" where
  "reconcile ptsToRecognized =
     reconcile_loop ptsToRecognized None (sort (Map_keys ptsToRecognized))"

text \<open>Re-keying of the catalogue under the reconciled timestamps.\<close>

definition rekey_step ::
  "(nat \<times> enat) list \<Rightarrow> nat \<times> IvfFrame \<Rightarrow> (enat \<times> IvfFrame) list \<Rightarrow>
   (enat \<times> IvfFrame) list" where
  "rekey_step ptsToRecognized entry recognizedFrames =
     (case entry of (pts, frame) \<Rightarrow>
        (case Map_get ptsToRecognized pts of
           None \<Rightarrow> recognizedFrames
         | Some recognizedPts \<Rightarrow>
            if recognizedPts \<noteq> 0 then Map_set recognizedFrames recognizedPts frame
            else recognizedFrames))"

definition rekey ::
  "(nat \<times> IvfFrame) list \<Rightarrow> (nat \<times> enat) list \<Rightarrow> (enat \<times> IvfFrame) list" where
  "rekey frames ptsToRecognized = fold (rekey_step ptsToRecognized) frames []"

record IvfInfo =
  ivf_width :: nat
  ivf_height :: nat
  ivf_frameRate :: number
  ivf_ptsIndex :: "enat list"
  ivf_frames :: "(enat \<times> IvfFrame) list"
  ivf_participantDisplayName :: string

definition parseIvf :: "byte list \<Rightarrow> bool \<Rightarrow> recognizer \<Rightarrow> error + IvfInfo" where
  "parseIvf file runRecognizer rec =
     (if bytesRead file 32 0 \<noteq> 32 then Inl InvalidIvfFile
      else
        let headerView = fd_read file 32 0;
            width = getUint16 headerView 12;
            height = getUint16 headerView 14;
            den = getUint32 headerView 16;
            num = getUint32 headerView 20;
            frameRate = js_div (Num (of_nat den)) (Num (of_nat num));
            frames = parse_frames file 0 32 []
        in if runRecognizer
           then (case run_recognizer rec file frameRate frames of
                   (ptsToRecognized, participantDisplayName) \<Rightarrow>
                     let recognizedFrames = rekey frames (reconcile ptsToRecognized)
                     in Inr \<lparr>ivf_width = width, ivf_height = height,
                             ivf_frameRate = frameRate,
                             ivf_ptsIndex = sort (Map_keys recognizedFrames),
                             ivf_frames = recognizedFrames,
                             ivf_participantDisplayName = participantDisplayName\<rparr>)
           else
             (let frames' = map (\<lambda>(pts, frame). (enat pts, frame)) frames
              in Inr \<lparr>ivf_width = width, ivf_height = height,
                      ivf_frameRate = frameRate,
                      ivf_ptsIndex = sort (Map_keys frames'),
                      ivf_frames = frames',
                      ivf_participantDisplayName = []\<rparr>))"

section \<open>The frame repair writer (\<open>fixIvfFrames\<close>)\<close>

text \<open>
  The variables of the loop, with the content of the output file. \<open>written\<close> records
  each frame passed to \<open>fixedFd.write\<close>, marked by the statement that wrote it: the
  duplication loop or the copy of an original frame.
\<close>

datatype origin = Original | Duplicate

record repair_state =
  fixedFd :: "byte list"
  position :: nat
  writtenFrames :: nat
  startPts :: int
  previousPts :: int
  previousFrame :: "byte list option"
  duplicatedFrames :: nat
  written :: "(origin \<times> byte list) list"


text \<open>
  The body of the \<open>while\<close> loop: one duplicate of the previous frame. The loop
  calls it on a frame of 12 bytes or more; on a shorter one \<open>setBigUint64\<close> throws.
\<close>

definition duplicate_step :: "byte list \<Rightarrow> repair_state \<Rightarrow> repair_state" where
  "duplicate_step frame st =
     (let previousPts' = previousPts st + 1;
          frame' = setBigUint64 frame 4 previousPts'
      in st\<lparr>previousPts := previousPts',
             previousFrame := Some frame',
             fixedFd := fd_write (fixedFd st) frame' (position st),
             position := position st + length frame',
             writtenFrames := writtenFrames st + 1,
             duplicatedFrames := duplicatedFrames st + 1,
             written := written st @ [(Duplicate, frame')]\<rparr>)"








section \<open>Notions used in the properties of the writer\<close>







section \<open>Example data\<close>

text \<open>
  A header of a 640 by 480 stream at 30 frames per second, frames with a payload of two
  bytes, and a recognizer that reads the clock from the first byte of the buffer, in
  tenths of a second; a zero byte is a clock that it does not recognize.
\<close>

definition example_header :: "byte list" where
  "example_header =
     [68, 75, 73, 70, 0, 0, 32, 0, 86, 80, 56, 48, 128, 2, 224, 1,
      30, 0, 0, 0, 1, 0, 0, 0, 9, 0, 0, 0, 0, 0, 0, 0]"

definition example_frame :: "nat \<Rightarrow> byte \<Rightarrow> byte list" where
  "example_frame pts b = [2, 0, 0, 0] @ le_bytes 8 (int pts) @ [b, 7]"

definition example_recognizer :: recognizer where
  "example_recognizer =
     \<lparr>recognize_clock =
        (\<lambda>buffer. Some \<lparr>recognizedTime = 100 * unat (hd buffer), clock_confidence = 90\<rparr>),
      recognize_name =
        (\<lambda>buffer. Some \<lparr>name_text = ''Participant-1'', name_confidence = 80\<rparr>)\<rparr>"

definition example_file :: "byte list" where
  "example_file =
     example_header @ example_frame 10 1 @ example_frame 11 2 @ example_frame 11 9
       @ example_frame 12 0 @ example_frame 13 4 @ example_frame 14 4"




section \<open>Properties of the metrics aggregator\<close>




















section \<open>Properties of the container reader and the recovery engine\<close>

lemma Map_get_set: "Map_get (Map_set m k v) k' = (if k' = k then Some v else Map_get m k')"
  by (induction m) (auto simp: Map_get_def)


lemma Map_keys_set: "set (Map_keys (Map_set m k v)) = insert k (set (Map_keys m))"
  unfolding Map_keys_def
proof (induction m)
  case Nil
  show ?case by simp
next
  case (Cons e m)
  then show ?case by (cases e) auto
qed


lemma distinct_Map_set: "distinct (Map_keys m) \<Longrightarrow> distinct (Map_keys (Map_set m k v))"
proof (induction m)
  case Nil
  then show ?case by (simp add: Map_keys_def)
next
  case (Cons e m)
  have "set (map fst (Map_set m k v)) = insert k (set (map fst m))"
    using Map_keys_set [of m k v] by (simp add: Map_keys_def)
  with Cons show ?case by (cases e) (auto simp: Map_keys_def)
qed

lemma Map_has_iff: "Map_has m k \<longleftrightarrow> k \<in> set (Map_keys m)"
  by (simp add: Map_has_def Map_keys_def)

lemma Map_get_None_iff: "Map_get m k = None \<longleftrightarrow> k \<notin> set (Map_keys m)"
  by (simp add: Map_get_def Map_keys_def map_of_eq_None_iff)

lemma distinct_Map_delete: "distinct (Map_keys m) \<Longrightarrow> distinct (Map_keys (Map_delete m k))"
  by (simp add: Map_keys_def Map_delete_def distinct_map_filter)

lemma parse_frames_distinct:
  "distinct (Map_keys acc) \<Longrightarrow> distinct (Map_keys (parse_frames src i p acc))"
proof (induction src i p acc rule: parse_frames.induct)
  case (1 src index position frames)
  show ?case
  proof (cases "bytesRead src 12 position \<noteq> 12")
    case True
    then show ?thesis using "1.prems" by (subst parse_frames.simps) simp
  next
    case False
    let ?v = "fd_read src 12 position"
    show ?thesis
    proof (cases "Map_has frames (getBigUint64 ?v 4)")
      case True
      then show ?thesis
        using False "1.IH"(1) [OF False refl refl refl True "1.prems"]
        by (subst parse_frames.simps) (simp add: Let_def)
    next
      case h: False
      then show ?thesis
        using False "1.IH"(2) [OF False refl refl refl h] "1.prems"
        by (subst parse_frames.simps) (simp add: Let_def distinct_Map_set)
    qed
  qed
qed

lemma parse_frames_keeps:
  "Map_get acc k = Some f \<Longrightarrow> Map_get (parse_frames src i p acc) k = Some f"
proof (induction src i p acc rule: parse_frames.induct)
  case (1 src index position frames)
  show ?case
  proof (cases "bytesRead src 12 position \<noteq> 12")
    case True
    then show ?thesis using "1.prems" by (subst parse_frames.simps) simp
  next
    case False
    let ?v = "fd_read src 12 position"
    show ?thesis
    proof (cases "Map_has frames (getBigUint64 ?v 4)")
      case True
      then show ?thesis
        using False "1.IH"(1) [OF False refl refl refl True "1.prems"]
        by (subst parse_frames.simps) (simp add: Let_def)
    next
      case h: False
      have "k \<noteq> getBigUint64 ?v 4"
        using h "1.prems" by (auto simp: Map_has_iff Map_get_None_iff [symmetric])
      then have "Map_get (Map_set frames (getBigUint64 ?v 4)
            \<lparr>frame_index = index, frame_position = position, frame_size = getUint32 ?v 0 + 12\<rparr>) k = Some f"
        using "1.prems" by (simp add: Map_get_set)
      then show ?thesis
        using False h "1.IH"(2) [OF False refl refl refl h]
        by (subst parse_frames.simps) (simp add: Let_def)
    qed
  qed
qed

lemma Map_keys_map_enat:
  "Map_keys (map (\<lambda>(pts, frame). (enat pts, frame)) m) = map enat (Map_keys m)"
  by (induction m) (auto simp: Map_keys_def)

lemma rekey_step_distinct:
  "distinct (Map_keys acc) \<Longrightarrow> distinct (Map_keys (rekey_step m e acc))"
  by (cases e) (simp add: rekey_step_def distinct_Map_set split: option.splits)

lemma fold_rekey_distinct:
  "distinct (Map_keys acc) \<Longrightarrow> distinct (Map_keys (fold (rekey_step m) fs acc))"
  by (induction fs arbitrary: acc) (simp_all add: rekey_step_distinct)

lemma rekey_distinct: "distinct (Map_keys (rekey fs m))"
  unfolding rekey_def by (rule fold_rekey_distinct) (simp add: Map_keys_def)

lemma parseIvf_ok:
  assumes "parseIvf src b rec = Inr info"
  shows "distinct (Map_keys (ivf_frames info)) \<and> ivf_ptsIndex info = sort (Map_keys (ivf_frames info))"
proof -
  have d: "distinct (Map_keys (parse_frames src 0 32 []))"
    by (rule parse_frames_distinct) (simp add: Map_keys_def)
  show ?thesis
  proof (cases b)
    case True
    with assms show ?thesis
      by (auto simp: parseIvf_def Let_def rekey_distinct split: if_splits prod.splits)
  next
    case False
    with assms d show ?thesis
      by (auto simp: parseIvf_def Let_def Map_keys_map_enat distinct_map inj_on_def
               split: if_splits)
  qed
qed

lemma strict_sorted_sort: "distinct xs \<Longrightarrow> sorted_wrt (<) (sort xs)"
  by (simp add: strict_sorted_iff)

lemma sort_eq_sorted_list_of_set: "distinct xs \<Longrightarrow> sort xs = sorted_list_of_set (set xs)"
  by (simp add: sorted_list_of_set_sort_remdups distinct_remdups_id)











lemma reconcile_loop_all_truthy:
  "\<forall>k \<in> set ks. truthy (Map_get m k) \<Longrightarrow> reconcile_loop m prev ks = m"
  by (induction ks arbitrary: prev) (simp_all add: reconcile_step_def split: option.splits)

lemma reconcile_all_truthy:
  "\<forall>k \<in> set (Map_keys m). truthy (Map_get m k) \<Longrightarrow> reconcile m = m"
  by (simp add: reconcile_def reconcile_loop_all_truthy)

lemma rekey_step_keys:
  "set (Map_keys (rekey_step m e acc)) =
     set (Map_keys acc) \<union> {r. r \<noteq> 0 \<and> Map_get m (fst e) = Some r}"
  by (cases e) (auto simp: rekey_step_def Map_keys_set split: option.splits)

lemma fold_rekey_keys:
  "set (Map_keys (fold (rekey_step m) fs acc)) =
     set (Map_keys acc) \<union> {r. r \<noteq> 0 \<and> (\<exists>e \<in> set fs. Map_get m (fst e) = Some r)}"
proof (induction fs arbitrary: acc)
  case Nil
  show ?case by simp
next
  case (Cons e fs)
  show ?case by (auto simp: Cons.IH rekey_step_keys)
qed

lemma rekey_keys:
  "set (Map_keys (rekey fs m)) =
     {r. r \<noteq> 0 \<and> (\<exists>pts \<in> set (Map_keys fs). Map_get m pts = Some r)}"
proof -
  have "set (Map_keys (rekey fs m)) =
        set (Map_keys ([] :: (enat \<times> IvfFrame) list))
          \<union> {r. r \<noteq> 0 \<and> (\<exists>e \<in> set fs. Map_get m (fst e) = Some r)}"
    unfolding rekey_def by (rule fold_rekey_keys)
  then show ?thesis by (auto simp: Map_keys_def)
qed

lemma recognizeFrame_keys:
  "set (Map_keys (fst (recognizeFrame rec src rate fs pts acc))) \<subseteq> insert pts (set (Map_keys (fst acc)))"
  by (cases acc) (auto simp: recognizeFrame_def Let_def Map_keys_set split: option.splits)

lemma fold_recognizeFrame_keys:
  "set (Map_keys (fst (fold (recognizeFrame rec src rate fs) ks acc))) \<subseteq> set ks \<union> set (Map_keys (fst acc))"
proof (induction ks arbitrary: acc)
  case Nil
  show ?case by simp
next
  case (Cons k ks)
  show ?case
    using Cons.IH [of "recognizeFrame rec src rate fs k acc"] recognizeFrame_keys [of rec src rate fs k acc]
    by auto
qed

lemma run_recognizer_keys:
  "set (Map_keys (fst (run_recognizer rec src rate fs))) \<subseteq> set (Map_keys fs)"
  unfolding run_recognizer_def
  using fold_recognizeFrame_keys [of rec src rate fs "Map_keys fs" "([], [])"]
  by (simp add: Map_keys_def)

lemma rekey_step_unchanged:
  "Map_get m (fst e) \<noteq> Some r \<Longrightarrow> Map_get (rekey_step m e acc) r = Map_get acc r"
  by (cases e) (auto simp: rekey_step_def Map_get_set split: option.splits)

lemma fold_rekey_unchanged:
  "\<forall>e \<in> set fs. Map_get m (fst e) \<noteq> Some r \<Longrightarrow>
   Map_get (fold (rekey_step m) fs acc) r = Map_get acc r"
  by (induction fs arbitrary: acc) (simp_all add: rekey_step_unchanged)

lemma rekey_step_hit:
  "Map_get m k = Some r \<Longrightarrow> r \<noteq> 0 \<Longrightarrow> Map_get (rekey_step m (k, f) acc) r = Some f"
  by (simp add: rekey_step_def Map_get_set)

lemma fold_rekey_last:
  assumes "Map_get m k2 = Some r" "r \<noteq> 0" "\<forall>e \<in> set fs3. Map_get m (fst e) \<noteq> Some r"
  shows "Map_get (fold (rekey_step m) (fs1 @ [(k2, f2)] @ fs3) acc) r = Some f2"
  using assms by (simp add: fold_rekey_unchanged rekey_step_hit)

lemma parseIvf_recognized:
  assumes "parseIvf src True rec = Inr info"
  shows "ivf_frames info =
           rekey (parse_frames src 0 32 [])
             (reconcile (fst (run_recognizer rec src (ivf_frameRate info)
                                (parse_frames src 0 32 []))))"
  using assms
  by (auto simp: parseIvf_def Let_def split: if_splits prod.splits)

text \<open>
  C8. For every container that parses, with or without the recognizer, the keys of the
  catalogue are distinct, and \<open>ptsIndex\<close> is the list of these keys in strictly
  ascending order.
\<close>

theorem parseIvf_ptsIndex_sorted_keys:
  assumes "parseIvf src runRecognizer rec = Inr info"
  shows "sorted_wrt (<) (ivf_ptsIndex info)
       \<and> ivf_ptsIndex info = sorted_list_of_set (set (Map_keys (ivf_frames info)))
       \<and> ivf_ptsIndex info = sort (Map_keys (ivf_frames info))
       \<and> distinct (Map_keys (ivf_frames info))"
  using parseIvf_ok [OF assms] by (simp add: strict_sorted_sort sort_eq_sorted_list_of_set)

theorem parseIvf_ptsIndex_sorted_keys_witness:
  "parseIvf example_file True example_recognizer =
     Inr \<lparr>ivf_width = 640, ivf_height = 480, ivf_frameRate = Num 30,
          ivf_ptsIndex = [3, 6, 7, 12],
          ivf_frames =
            [(3, \<lparr>frame_index = 0, frame_position = 32, frame_size = 14\<rparr>),
             (6, \<lparr>frame_index = 1, frame_position = 46, frame_size = 14\<rparr>),
             (7, \<lparr>frame_index = 2, frame_position = 74, frame_size = 14\<rparr>),
             (12, \<lparr>frame_index = 4, frame_position = 102, frame_size = 14\<rparr>)],
          ivf_participantDisplayName = ''Participant-1''\<rparr>
   \<and> sorted_wrt (<) [3, 6, 7, 12 :: enat]
   \<and> [3, 6, 7, 12 :: enat] = sorted_list_of_set (set [3, 6, 7, 12])"
proof -
  have h: "parseIvf example_file True example_recognizer =
     Inr \<lparr>ivf_width = 640, ivf_height = 480, ivf_frameRate = Num 30,
          ivf_ptsIndex = [3, 6, 7, 12],
          ivf_frames =
            [(3, \<lparr>frame_index = 0, frame_position = 32, frame_size = 14\<rparr>),
             (6, \<lparr>frame_index = 1, frame_position = 46, frame_size = 14\<rparr>),
             (7, \<lparr>frame_index = 2, frame_position = 74, frame_size = 14\<rparr>),
             (12, \<lparr>frame_index = 4, frame_position = 102, frame_size = 14\<rparr>)],
          ivf_participantDisplayName = ''Participant-1''\<rparr>"
    by code_simp
  show ?thesis
    using h parseIvf_ptsIndex_sorted_keys [OF h] by (simp add: Map_keys_def)
qed



text \<open>
  C4. When the recognizer leaves a usable timestamp for every frame of the catalogue,
  the reconciliation pass returns \<open>ptsToRecognized\<close> as it is, and the keys of the
  recovered catalogue (and \<open>ptsIndex\<close>) are exactly the recognized timestamps.
\<close>

theorem reconcile_identity_when_all_recognized:
  assumes "parseIvf src True rec = Inr info"
    and "run_recognizer rec src (ivf_frameRate info) (parse_frames src 0 32 []) = (m, name)"
    and "\<forall>pts \<in> set (Map_keys (parse_frames src 0 32 [])). truthy (Map_get m pts)"
  shows "reconcile m = m
       \<and> ivf_frames info = rekey (parse_frames src 0 32 []) m
       \<and> set (Map_keys (ivf_frames info)) =
           {r. \<exists>pts \<in> set (Map_keys (parse_frames src 0 32 [])). Map_get m pts = Some r}
       \<and> set (ivf_ptsIndex info) =
           {r. \<exists>pts \<in> set (Map_keys (parse_frames src 0 32 [])). Map_get m pts = Some r}"
proof -
  let ?fs = "parse_frames src 0 32 []"
  have sub: "set (Map_keys m) \<subseteq> set (Map_keys ?fs)"
    using run_recognizer_keys [of rec src "ivf_frameRate info" ?fs] assms(2) by simp
  with assms(3) have "\<forall>k \<in> set (Map_keys m). truthy (Map_get m k)" by blast
  then have r: "reconcile m = m" by (rule reconcile_all_truthy)
  have f: "ivf_frames info = rekey ?fs m"
    using parseIvf_recognized [OF assms(1)] assms(2) r by simp
  have k: "set (Map_keys (ivf_frames info)) =
           {r. \<exists>pts \<in> set (Map_keys ?fs). Map_get m pts = Some r}"
    unfolding f rekey_keys using assms(3) by (auto simp: truthy_def)
  have "set (ivf_ptsIndex info) = set (Map_keys (ivf_frames info))"
    using parseIvf_ok [OF assms(1)] by simp
  with r f k show ?thesis by simp
qed

theorem reconcile_identity_when_all_recognized_witness:
  "parseIvf (example_header @ example_frame 10 1 @ example_frame 11 2) True example_recognizer
     = Inr \<lparr>ivf_width = 640, ivf_height = 480, ivf_frameRate = Num 30,
            ivf_ptsIndex = [3, 6],
            ivf_frames =
              [(3, \<lparr>frame_index = 0, frame_position = 32, frame_size = 14\<rparr>),
               (6, \<lparr>frame_index = 1, frame_position = 46, frame_size = 14\<rparr>)],
            ivf_participantDisplayName = ''Participant-1''\<rparr>
   \<and> run_recognizer example_recognizer (example_header @ example_frame 10 1 @ example_frame 11 2)
        (Num 30) (parse_frames (example_header @ example_frame 10 1 @ example_frame 11 2) 0 32 [])
       = ([(10, 3), (11, 6)], ''Participant-1'')
   \<and> Map_keys (parse_frames
          (example_header @ example_frame 10 1 @ example_frame 11 2) 0 32 []) = [10, 11]
   \<and> truthy (Map_get [(10 :: nat, 3 :: enat), (11, 6)] 10)
   \<and> truthy (Map_get [(10 :: nat, 3 :: enat), (11, 6)] 11)
   \<and> reconcile [(10, 3), (11, 6)] = [(10, 3), (11, 6)]"
proof -
  let ?src = "example_header @ example_frame 10 1 @ example_frame 11 2"
  let ?info = "\<lparr>ivf_width = 640, ivf_height = 480, ivf_frameRate = Num 30,
            ivf_ptsIndex = [3, 6],
            ivf_frames =
              [(3, \<lparr>frame_index = 0, frame_position = 32, frame_size = 14\<rparr>),
               (6, \<lparr>frame_index = 1, frame_position = 46, frame_size = 14\<rparr>)],
            ivf_participantDisplayName = ''Participant-1''\<rparr>"
  have h1: "parseIvf ?src True example_recognizer = Inr ?info" by code_simp
  have h2': "run_recognizer example_recognizer ?src (Num 30) (parse_frames ?src 0 32 [])
       = ([(10, 3), (11, 6)], ''Participant-1'')" by code_simp
  then have h2: "run_recognizer example_recognizer ?src (ivf_frameRate ?info)
       (parse_frames ?src 0 32 []) = ([(10, 3), (11, 6)], ''Participant-1'')" by simp
  have k: "Map_keys (parse_frames ?src 0 32 []) = [10, 11]" by code_simp
  have t10: "truthy (Map_get [(10 :: nat, 3 :: enat), (11, 6)] 10)" by code_simp
  have t11: "truthy (Map_get [(10 :: nat, 3 :: enat), (11, 6)] 11)" by code_simp
  have h3: "\<forall>pts \<in> set (Map_keys (parse_frames ?src 0 32 [])).
         truthy (Map_get [(10, 3), (11, 6)] pts)"
    unfolding k using t10 t11 by simp
  have r: "reconcile [(10, 3), (11, 6)] = [(10, 3), (11, 6)]"
    using reconcile_identity_when_all_recognized [OF h1 h2 h3] by (rule conjunct1)
  from h1 h2' k t10 t11 r show ?thesis by (intro conjI)
qed

text \<open>
  C9. When two frames of the catalogue resolve to the same usable timestamp \<open>r\<close>, the
  recovered catalogue holds under \<open>r\<close> the frame that is iterated later and no longer
  the earlier one. The parse pass does the opposite: an entry that is in the catalogue
  stays as it is, whatever frames follow in the file.
\<close>

theorem rekey_later_frame_overwrites:
  assumes "frames = fs1 @ [(k1, f1)] @ fs2 @ [(k2, f2)] @ fs3"
    and "Map_get m k1 = Some r" and "Map_get m k2 = Some r" and "r \<noteq> 0"
    and "\<forall>e \<in> set fs3. Map_get m (fst e) \<noteq> Some r"
  shows "Map_get (rekey frames m) r = Some f2
       \<and> (f1 \<noteq> f2 \<longrightarrow> (r, f1) \<notin> set (rekey frames m))
       \<and> (Map_get acc pts = Some f \<longrightarrow> Map_get (parse_frames src i p acc) pts = Some f)"
proof -
  have "frames = (fs1 @ [(k1, f1)] @ fs2) @ [(k2, f2)] @ fs3" using assms(1) by simp
  then have g: "Map_get (rekey frames m) r = Some f2"
    unfolding rekey_def using fold_rekey_last [OF assms(3,4,5)] by simp
  have d: "distinct (map fst (rekey frames m))"
    using rekey_distinct [of frames m] by (simp add: Map_keys_def)
  have "(r, f1) \<in> set (rekey frames m) \<Longrightarrow> f1 = f2"
    using g d by (simp add: Map_get_def)
  then show ?thesis
    using g parse_frames_keeps [of acc pts f src i p] by blast
qed

theorem rekey_later_frame_overwrites_witness:
  "[(10, \<lparr>frame_index = 0, frame_position = 32, frame_size = 14\<rparr>),
    (13, \<lparr>frame_index = 3, frame_position = 88, frame_size = 14\<rparr>),
    (14, \<lparr>frame_index = 4, frame_position = 102, frame_size = 14\<rparr>)]
     = [(10, \<lparr>frame_index = 0, frame_position = 32, frame_size = 14\<rparr>)]
       @ [(13, \<lparr>frame_index = 3, frame_position = 88, frame_size = 14\<rparr>)] @ []
       @ [(14 :: nat, \<lparr>frame_index = 4, frame_position = 102, frame_size = 14\<rparr>)] @ []
   \<and> Map_get [(10 :: nat, 3 :: enat), (13, 12), (14, 12)] 13 = Some 12
   \<and> Map_get [(10 :: nat, 3 :: enat), (13, 12), (14, 12)] 14 = Some 12
   \<and> (12 :: enat) \<noteq> 0
   \<and> \<lparr>frame_index = 3, frame_position = 88, frame_size = 14\<rparr>
       \<noteq> \<lparr>frame_index = 4, frame_position = 102, frame_size = 14\<rparr>
   \<and> rekey [(10, \<lparr>frame_index = 0, frame_position = 32, frame_size = 14\<rparr>),
            (13, \<lparr>frame_index = 3, frame_position = 88, frame_size = 14\<rparr>),
            (14, \<lparr>frame_index = 4, frame_position = 102, frame_size = 14\<rparr>)]
        [(10, 3), (13, 12), (14, 12)]
      = [(3, \<lparr>frame_index = 0, frame_position = 32, frame_size = 14\<rparr>),
         (12, \<lparr>frame_index = 4, frame_position = 102, frame_size = 14\<rparr>)]
   \<and> Map_get (rekey [(10, \<lparr>frame_index = 0, frame_position = 32, frame_size = 14\<rparr>),
            (13, \<lparr>frame_index = 3, frame_position = 88, frame_size = 14\<rparr>),
            (14, \<lparr>frame_index = 4, frame_position = 102, frame_size = 14\<rparr>)]
        [(10, 3), (13, 12), (14, 12)]) 12
      = Some \<lparr>frame_index = 4, frame_position = 102, frame_size = 14\<rparr>
   \<and> Map_get [(11 :: nat, \<lparr>frame_index = 1, frame_position = 46, frame_size = 14\<rparr>)] 11
      = Some \<lparr>frame_index = 1, frame_position = 46, frame_size = 14\<rparr>
   \<and> Map_get (parse_frames example_file 2 60
        [(11, \<lparr>frame_index = 1, frame_position = 46, frame_size = 14\<rparr>)]) 11
      = Some \<lparr>frame_index = 1, frame_position = 46, frame_size = 14\<rparr>"
proof -
  let ?F0 = "\<lparr>frame_index = 0, frame_position = 32, frame_size = 14\<rparr>"
  let ?F1 = "\<lparr>frame_index = 1, frame_position = 46, frame_size = 14\<rparr>"
  let ?F3 = "\<lparr>frame_index = 3, frame_position = 88, frame_size = 14\<rparr>"
  let ?F4 = "\<lparr>frame_index = 4, frame_position = 102, frame_size = 14\<rparr>"
  let ?m = "[(10 :: nat, 3 :: enat), (13, 12), (14, 12)]"
  have h1: "[(10, ?F0), (13, ?F3), (14, ?F4)] = [(10, ?F0)] @ [(13, ?F3)] @ [] @ [(14 :: nat, ?F4)] @ []"
    by simp
  have h2: "Map_get ?m 13 = Some 12" by code_simp
  have h3: "Map_get ?m 14 = Some 12" by code_simp
  have h4: "(12 :: enat) \<noteq> 0" by simp
  have h5: "\<forall>e \<in> set ([] :: (nat \<times> IvfFrame) list). Map_get ?m (fst e) \<noteq> Some 12" by simp
  have h6: "?F3 \<noteq> ?F4" by simp
  have h7: "Map_get [(11 :: nat, ?F1)] 11 = Some ?F1" by code_simp
  have e: "rekey [(10, ?F0), (13, ?F3), (14, ?F4)] ?m = [(3, ?F0), (12, ?F4)]" by code_simp
  note t = rekey_later_frame_overwrites [OF h1 h2 h3 h4 h5, of "[(11 :: nat, ?F1)]" 11 ?F1
             example_file 2 60]
  from t have a: "Map_get (rekey [(10, ?F0), (13, ?F3), (14, ?F4)] ?m) 12 = Some ?F4" by blast
  from t h7 have b: "Map_get (parse_frames example_file 2 60 [(11, ?F1)]) 11 = Some ?F1" by blast
  from h1 h2 h3 h4 h6 e a h7 b show ?thesis by (intro conjI)
qed

section \<open>Properties of the frame repair writer\<close>

lemma length_le_bytes [simp]: "length (le_bytes n v) = n"
  by (induction n arbitrary: v) simp_all



lemma length_set_bytes:
  "off + length bs \<le> length view \<Longrightarrow> length (set_bytes view off bs) = length view"
  by (simp add: set_bytes_def)

lemma length_setBigUint64 [simp]:
  "12 \<le> length f \<Longrightarrow> length (setBigUint64 f 4 v) = length f"
  by (simp add: setBigUint64_def length_set_bytes)




lemma length_fd_read [simp]: "length (fd_read src len pos) = len"
  by (auto simp: fd_read_def bytesRead_def)







lemma length_setUint32 [simp]: "28 \<le> length h \<Longrightarrow> length (setUint32 h 24 v) = length h"
  by (simp add: setUint32_def length_set_bytes)


lemma js_sub_Num [simp]: "js_sub (Num a) (Num b) = Num (a - b)"
  by (simp add: js_sub_def)










lemma previousPts_duplicate_step [simp]:
  "previousPts (duplicate_step f s) = previousPts s + 1"
  by (simp add: duplicate_step_def Let_def)

lemma previousFrame_duplicate_step [simp]:
  "previousFrame (duplicate_step f s) \<noteq> None"
  by (simp add: duplicate_step_def Let_def)


lemma startPts_duplicate_step [simp]: "startPts (duplicate_step f s) = startPts s"
  by (simp add: duplicate_step_def Let_def)

lemma number_of_enat_int: "number_of (enat n) = Num (of_int (int n))"
  by simp













































end
